theory Spec2Isabelle
  imports Complex_Main
begin

section \<open>Geometry utilities (face\_controller.py)\<close>

text \<open>
  Python floats are modelled as exact reals. The float operator \<open>x % y\<close> returns the
  remainder with the sign of the divisor, \<open>x - y * floor (x / y)\<close>; it is only ever
  called with the divisor \<open>360.0\<close>.
\<close>

definition py_float_mod :: "real \<Rightarrow> real \<Rightarrow> real" where
  "py_float_mod x y = x - y * of_int \<lfloor>x / y\<rfloor>"

text \<open>The expression \<open>(yaw + 180.0) % 360.0 - 180.0\<close> of \<open>head_pose_pnp\<close>.\<close>

definition yaw_wrap :: "real \<Rightarrow> real" where
  "yaw_wrap deg = py_float_mod (deg + 180) 360 - 180"

definition wrap_human_angle :: "real \<Rightarrow> real" where
  "wrap_human_angle deg0 =
     (let deg = py_float_mod (deg0 + 180) 360 - 180
      in if deg > 90 then deg - 180
         else if deg < - 90 then deg + 180
         else deg)"

section \<open>Gesture state of the control loop (input\_state.py, config.py)\<close>

definition NEUTRAL_FRAMES_REQUIRED :: int where
  "NEUTRAL_FRAMES_REQUIRED = 2"

definition PLACE_HOLD_SECONDS :: real where
  "PLACE_HOLD_SECONDS = 35 / 100"


record InputState =
  last_face_seen_time :: real
  move_armed :: bool
  neutral_run :: int
  both_hold_start :: "real option"
  both_hold_armed :: bool
  right_only_hold_start :: "real option"
  right_only_hold_armed :: bool

text \<open>The field defaults of the dataclass: the state \<open>InputState()\<close> of \<open>main\<close>.\<close>

definition InputState_init :: InputState where
  "InputState_init =
     \<lparr>last_face_seen_time = 0, move_armed = True, neutral_run = 0,
      both_hold_start = None, both_hold_armed = True,
      right_only_hold_start = None, right_only_hold_armed = True\<rparr>"

definition on_calibrate :: "InputState \<Rightarrow> InputState" where
  "on_calibrate s =
     s\<lparr>move_armed := True, neutral_run := 0,
       both_hold_start := None, both_hold_armed := True,
       right_only_hold_start := None, right_only_hold_armed := True\<rparr>"

definition update_neutral_and_arm :: "InputState \<Rightarrow> int \<Rightarrow> int \<Rightarrow> int \<Rightarrow> InputState" where
  "update_neutral_and_arm s mx my neutral_frames_required =
     (if mx = 0 \<and> my = 0 then
        (let s1 = s\<lparr>neutral_run := neutral_run s + 1\<rparr>
         in if neutral_run s1 \<ge> neutral_frames_required then s1\<lparr>move_armed := True\<rparr> else s1)
      else s\<lparr>neutral_run := 0\<rparr>)"

definition consume_move_arm_if_moved :: "InputState \<Rightarrow> bool \<Rightarrow> InputState" where
  "consume_move_arm_if_moved s moved = (if moved then s\<lparr>move_armed := False\<rparr> else s)"

text \<open>
  The two hold handlers return the trigger flag together with the updated state. Where
  the elapsed time is read the start timestamp has just been set, if it was \<open>None\<close>,
  so \<open>the\<close> is only applied to \<open>Some\<close>.
\<close>

definition handle_right_only_hold ::
  "InputState \<Rightarrow> real \<Rightarrow> bool \<Rightarrow> bool \<Rightarrow> real \<Rightarrow> bool \<times> InputState" where
  "handle_right_only_hold s now right_closed left_closed reset_hold_seconds =
     (if right_closed \<and> \<not> left_closed then
        (let s1 = (if right_only_hold_start s = None
                   then s\<lparr>right_only_hold_start := Some now, right_only_hold_armed := True\<rparr>
                   else s)
         in if now - the (right_only_hold_start s1) \<ge> reset_hold_seconds \<and> right_only_hold_armed s1
            then (True, s1\<lparr>right_only_hold_armed := False\<rparr>)
            else (False, s1))
      else (False, s\<lparr>right_only_hold_start := None, right_only_hold_armed := True\<rparr>))"

definition handle_both_hold ::
  "InputState \<Rightarrow> real \<Rightarrow> bool \<Rightarrow> bool \<Rightarrow> real \<Rightarrow> bool \<Rightarrow> bool \<times> InputState" where
  "handle_both_hold s now right_closed left_closed place_hold_seconds game_over =
     (if game_over then (False, s\<lparr>both_hold_start := None, both_hold_armed := True\<rparr>)
      else if left_closed \<and> right_closed then
        (let s1 = (if both_hold_start s = None
                   then s\<lparr>both_hold_start := Some now, both_hold_armed := True\<rparr>
                   else s)
         in if now - the (both_hold_start s1) \<ge> place_hold_seconds \<and> both_hold_armed s1
            then (True, s1\<lparr>both_hold_armed := False\<rparr>)
            else (False, s1))
      else (False, s\<lparr>both_hold_start := None, both_hold_armed := True\<rparr>))"

subsection \<open>Frame sequences fed to the hold handlers\<close>

text \<open>
  A frame of the reset machine is \<open>(now, right_closed, left_closed)\<close>; a frame of the
  place machine carries the caller's \<open>game_over\<close> flag as well. A run calls the handler
  once per frame, threading the state, and records each call's result and state.
\<close>

type_synonym eye_frame = "real \<times> bool \<times> bool"
type_synonym place_frame = "real \<times> bool \<times> bool \<times> bool"

fun run_right_only_hold ::
  "real \<Rightarrow> InputState \<Rightarrow> eye_frame list \<Rightarrow> (bool \<times> InputState) list" where
  "run_right_only_hold th s [] = []"
| "run_right_only_hold th s ((now, right_closed, left_closed) # fs) =
     (let r = handle_right_only_hold s now right_closed left_closed th
      in r # run_right_only_hold th (snd r) fs)"

fun run_both_hold ::
  "real \<Rightarrow> InputState \<Rightarrow> place_frame list \<Rightarrow> (bool \<times> InputState) list" where
  "run_both_hold th s [] = []"
| "run_both_hold th s ((now, right_closed, left_closed, game_over) # fs) =
     (let r = handle_both_hold s now right_closed left_closed th game_over
      in r # run_both_hold th (snd r) fs)"


subsection \<open>What a hold is, in terms of the frames alone\<close>

definition frame_time :: "real \<times> 'a \<Rightarrow> real" where
  "frame_time f = fst f"

text \<open>The triggering conditions: right eye closed and left eye open; both eyes closed.\<close>

definition right_only_cond :: "eye_frame \<Rightarrow> bool" where
  "right_only_cond f =
     (case f of (now, right_closed, left_closed) \<Rightarrow> right_closed \<and> \<not> left_closed)"

definition both_eyes_cond :: "eye_frame \<Rightarrow> bool" where
  "both_eyes_cond f =
     (case f of (now, right_closed, left_closed) \<Rightarrow> left_closed \<and> right_closed)"

text \<open>The condition the place machine acts on: both eyes closed and the game not over.\<close>

definition both_cond :: "place_frame \<Rightarrow> bool" where
  "both_cond f =
     (case f of (now, right_closed, left_closed, game_over) \<Rightarrow>
        \<not> game_over \<and> left_closed \<and> right_closed)"

text \<open>
  \<open>hold_begin c i\<close> is the first frame of the continuous hold that frame \<open>i\<close> belongs
  to: the least \<open>k \<le> i\<close> with the condition \<open>c\<close> true on every frame from \<open>k\<close> up to
  \<open>i - 1\<close>.
\<close>

fun hold_begin :: "(nat \<Rightarrow> bool) \<Rightarrow> nat \<Rightarrow> nat" where
  "hold_begin c 0 = 0"
| "hold_begin c (Suc i) = (if c i then hold_begin c i else Suc i)"

text \<open>
  Frame \<open>i\<close> is the first frame of its hold whose elapsed time since the hold began
  reaches the threshold.
\<close>

definition fires_at :: "real \<Rightarrow> (nat \<Rightarrow> real) \<Rightarrow> (nat \<Rightarrow> bool) \<Rightarrow> nat \<Rightarrow> bool" where
  "fires_at th t c i =
     (c i \<and> th \<le> t i - t (hold_begin c i) \<and>
      list_all (\<lambda>j. t j - t (hold_begin c i) < th) [hold_begin c i..<i])"



text \<open>
  The latch both handlers implement, on the pair (start timestamp, armed flag); the
  handlers are shown below to be instances of it.
\<close>

type_synonym hold = "real option \<times> bool"

definition hold_step :: "real \<Rightarrow> hold \<Rightarrow> real \<Rightarrow> bool \<Rightarrow> bool \<times> hold" where
  "hold_step th h now c =
     (if c then
        (let st = (case fst h of None \<Rightarrow> now | Some t0 \<Rightarrow> t0);
             ar = (fst h = None \<or> snd h)
         in if th \<le> now - st \<and> ar then (True, (Some st, False)) else (False, (Some st, ar)))
      else (False, (None, True)))"

fun hold_at :: "real \<Rightarrow> hold \<Rightarrow> (nat \<Rightarrow> real) \<Rightarrow> (nat \<Rightarrow> bool) \<Rightarrow> nat \<Rightarrow> hold" where
  "hold_at th h t c 0 = h"
| "hold_at th h t c (Suc i) = snd (hold_step th (hold_at th h t c i) (t i) (c i))"

definition ro_hold :: "InputState \<Rightarrow> hold" where
  "ro_hold s = (right_only_hold_start s, right_only_hold_armed s)"

definition bo_hold :: "InputState \<Rightarrow> hold" where
  "bo_hold s = (both_hold_start s, both_hold_armed s)"

section \<open>The cursor-move block of the control loop (main.py)\<close>

definition choose_axis_no_diagonal :: "int \<Rightarrow> int \<Rightarrow> real \<Rightarrow> real \<Rightarrow> int \<times> int" where
  "choose_axis_no_diagonal mx my yaw pitch =
     (if mx \<noteq> 0 \<and> my \<noteq> 0 then (if \<bar>yaw\<bar> \<ge> \<bar>pitch\<bar> then (mx, 0) else (0, my))
      else (mx, my))"

text \<open>
  Lines 200 to 222 of \<open>main\<close>, run on every frame that reaches them with no winner:
  the axis choice, \<open>update_neutral_and_arm\<close>, the cursor move when armed, and
  \<open>consume_move_arm_if_moved\<close>. The result is the argument of \<open>game.move_cursor\<close>, if
  it is called, and the updated state.
\<close>

definition move_block ::
  "InputState \<Rightarrow> int \<Rightarrow> int \<Rightarrow> real \<Rightarrow> real \<Rightarrow> (int \<times> int) option \<times> InputState" where
  "move_block s mx0 my0 yaw pitch =
     (let (mx, my) = choose_axis_no_diagonal mx0 my0 yaw pitch;
          s1 = update_neutral_and_arm s mx my NEUTRAL_FRAMES_REQUIRED;
          mv = (if move_armed s1 then
                  (if mx = - 1 then Some (- 1, 0)
                   else if mx = 1 then Some (1, 0)
                   else if my = 1 then Some (0, 1)
                   else if my = - 1 then Some (0, - 1)
                   else None)
                else None)
      in (mv, consume_move_arm_if_moved s1 (mv \<noteq> None)))"

text \<open>
  A frame of the move block is \<open>(recal, mx, my, yaw, pitch)\<close>. The flag \<open>recal\<close> says
  that the loop has called \<open>on_calibrate\<close> since the previous execution of the block
  (the calibration key, the difficulty lock, the reset gesture or the automatic reset,
  lines 85, 139, 151 and 170). The block reads and writes \<open>move_armed\<close> and
  \<open>neutral_run\<close> only. Apart from the block and \<open>on_calibrate\<close>, the only code that
  writes these two fields is the difficulty selection (lines 125 and 132), and the loop
  leaves the selection through \<open>on_calibrate\<close> (line 139) before the block runs again;
  so on entry to the block the two fields are those the previous execution left, or
  those \<open>on_calibrate\<close> sets.
\<close>

type_synonym move_frame = "bool \<times> int \<times> int \<times> real \<times> real"

fun run_move_block ::
  "InputState \<Rightarrow> move_frame list \<Rightarrow> ((int \<times> int) option \<times> InputState) list" where
  "run_move_block s [] = []"
| "run_move_block s ((recal, mx, my, yaw, pitch) # fs) =
     (let r = move_block (if recal then on_calibrate s else s) mx my yaw pitch
      in r # run_move_block (snd r) fs)"

definition frame_step :: "InputState \<Rightarrow> move_frame \<Rightarrow> (int \<times> int) option \<times> InputState" where
  "frame_step s f =
     (case f of (recal, mx, my, yaw, pitch) \<Rightarrow>
        move_block (if recal then on_calibrate s else s) mx my yaw pitch)"

definition recalibrated :: "move_frame \<Rightarrow> bool" where
  "recalibrated f = fst f"

text \<open>A neutral frame: both move deltas given to \<open>update_neutral_and_arm\<close> are zero.\<close>

definition neutral_frame :: "move_frame \<Rightarrow> bool" where
  "neutral_frame f =
     (case f of (recal, mx, my, yaw, pitch) \<Rightarrow> choose_axis_no_diagonal mx my yaw pitch = (0, 0))"

text \<open>
  What can have armed the latch again at frame \<open>j\<close> after a move at frame \<open>i\<close>: a
  call of \<open>on_calibrate\<close> at some frame of \<open>i+1 .. j\<close>, or two consecutive neutral
  frames \<open>k\<close> and \<open>k+1\<close> with \<open>i < k\<close> and \<open>k+1 \<le> j\<close>.
\<close>

definition rearm_cause :: "move_frame list \<Rightarrow> nat \<Rightarrow> nat \<Rightarrow> bool" where
  "rearm_cause fs i j =
     (list_ex (\<lambda>k. recalibrated (fs ! k)) [Suc i..<Suc j] \<or>
      list_ex (\<lambda>k. neutral_frame (fs ! k) \<and> neutral_frame (fs ! Suc k)) [Suc i..<j])"

section \<open>The face controller (face\_controller.py)\<close>

subsection \<open>Eye aspect ratio and head pose\<close>

text \<open>The landmark indices of the two eyes.\<close>

definition LEFT_EYE :: "nat list" where
  "LEFT_EYE = [33, 160, 158, 133, 153, 144]"

definition RIGHT_EYE :: "nat list" where
  "RIGHT_EYE = [362, 385, 387, 263, 373, 380]"

type_synonym point = "real \<times> real"

text \<open>
  \<open>dist\<close> is the Euclidean norm of the difference of two points. The landmark array is
  a function from landmark index to point: the detector always delivers the full mesh.
\<close>

definition dist_pts :: "point \<Rightarrow> point \<Rightarrow> real" where
  "dist_pts a b = sqrt ((fst a - fst b)\<^sup>2 + (snd a - snd b)\<^sup>2)"

definition eye_ear :: "(nat \<Rightarrow> point) \<Rightarrow> nat list \<Rightarrow> real" where
  "eye_ear pts eye_idx =
     (let p1 = pts (eye_idx ! 0); p2 = pts (eye_idx ! 1); p3 = pts (eye_idx ! 2);
          p4 = pts (eye_idx ! 3); p5 = pts (eye_idx ! 4); p6 = pts (eye_idx ! 5)
      in (dist_pts p2 p6 + dist_pts p3 p5) / (2 * dist_pts p1 p4 + 1 / 1000000))"

text \<open>
  \<open>head_pose_pnp\<close> calls OpenCV for the two \<open>solvePnP\<close> stages and for the
  decomposition of the rotation; their results on a frame (the two success flags and the
  three Euler angles) are inputs of the model. What the function itself does is kept: it
  gives up when either stage fails, and it wraps the three angles.
\<close>

definition head_pose_pnp :: "bool \<Rightarrow> bool \<Rightarrow> real \<times> real \<times> real \<Rightarrow> (real \<times> real \<times> real) option" where
  "head_pose_pnp epnp_ok iterative_ok angles =
     (if \<not> epnp_ok then None
      else if \<not> iterative_ok then None
      else (case angles of (a0, a1, a2) \<Rightarrow>
              Some (wrap_human_angle a0, yaw_wrap a1, wrap_human_angle a2)))"

subsection \<open>Smoothing windows\<close>

text \<open>
  \<open>np.mean\<close> of a window, and \<open>append\<close> on a \<open>deque\<close> with a \<open>maxlen\<close>: the new
  value is added at the right end and, if the deque is then too long, the leftmost value
  is dropped. The code takes the mean of non-empty windows only: \<open>calibrate\<close> checks the
  length, and \<open>read_actions\<close> appends before it averages.
\<close>

definition np_mean :: "real list \<Rightarrow> real" where
  "np_mean xs = sum_list xs / real (length xs)"

definition deque_append :: "nat \<Rightarrow> 'a list \<Rightarrow> 'a \<Rightarrow> 'a list" where
  "deque_append maxlen xs x = (let ys = xs @ [x] in if length ys > maxlen then tl ys else ys)"

subsection \<open>Controller state\<close>

text \<open>
  The mutable fields of \<open>FaceController\<close>; the camera handle and the landmark detector
  are external. The thresholds set in \<open>__init__\<close> are never assigned again and are
  constants here. The fields \<open>_mx_run\<close>, \<open>_my_run\<close>, \<open>_mx_last\<close> and \<open>_my_last\<close>
  lose their leading underscore, as does \<open>_apply_intent_filter\<close>.
\<close>

record FaceController =
  yaw_hist :: "real list"
  pitch_hist :: "real list"
  roll_hist :: "real list"
  earL_hist :: "real list"
  earR_hist :: "real list"
  baseline_earL :: "real option"
  baseline_earR :: "real option"
  baseline_yaw :: real
  baseline_pitch :: real
  baseline_roll :: real
  mx_run :: int
  my_run :: int
  mx_last :: int
  my_last :: int

definition INVERT_X :: bool where "INVERT_X = True"

definition YAW_TH :: real where "YAW_TH = 18"

definition PITCH_TH :: real where "PITCH_TH = 20"

definition PITCH_DEADZONE :: real where "PITCH_DEADZONE = 10"

definition INTENT_FRAMES :: int where "INTENT_FRAMES = 3"

definition BLINK_DROP :: real where "BLINK_DROP = 72 / 100"

text \<open>The state \<open>__init__\<close> leaves: empty windows of capacity 9 and 5, no eye baselines.\<close>

definition FaceController_init :: FaceController where
  "FaceController_init =
     \<lparr>yaw_hist = [], pitch_hist = [], roll_hist = [], earL_hist = [], earR_hist = [],
      baseline_earL = None, baseline_earR = None,
      baseline_yaw = 0, baseline_pitch = 0, baseline_roll = 0,
      mx_run = 0, my_run = 0, mx_last = 0, my_last = 0\<rparr>"

definition calibrate :: "FaceController \<Rightarrow> FaceController" where
  "calibrate s =
     (let s1 = (if length (earL_hist s) > 0
                then s\<lparr>baseline_earL := Some (np_mean (earL_hist s))\<rparr> else s);
          s2 = (if length (earR_hist s1) > 0
                then s1\<lparr>baseline_earR := Some (np_mean (earR_hist s1))\<rparr> else s1);
          s3 = (if length (yaw_hist s2) > 0
                then s2\<lparr>baseline_yaw := np_mean (yaw_hist s2)\<rparr> else s2);
          s4 = (if length (pitch_hist s3) > 0
                then s3\<lparr>baseline_pitch := np_mean (pitch_hist s3)\<rparr> else s3);
          s5 = (if length (roll_hist s4) > 0
                then s4\<lparr>baseline_roll := np_mean (roll_hist s4)\<rparr> else s4)
      in s5\<lparr>mx_run := 0, my_run := 0, mx_last := 0, my_last := 0\<rparr>)"

definition apply_intent_filter :: "FaceController \<Rightarrow> int \<Rightarrow> int \<Rightarrow> (int \<times> int) \<times> FaceController" where
  "apply_intent_filter s raw_mx raw_my =
     (let (mx, s1) =
            (if raw_mx = 0 then (0, s\<lparr>mx_run := 0, mx_last := 0\<rparr>)
             else (let sx = (if raw_mx = mx_last s then s\<lparr>mx_run := mx_run s + 1\<rparr>
                             else s\<lparr>mx_last := raw_mx, mx_run := 1\<rparr>)
                   in (if mx_run sx \<ge> INTENT_FRAMES then raw_mx else 0, sx)));
          (my, s2) =
            (if raw_my = 0 then (0, s1\<lparr>my_run := 0, my_last := 0\<rparr>)
             else (let sy = (if raw_my = my_last s1 then s1\<lparr>my_run := my_run s1 + 1\<rparr>
                             else s1\<lparr>my_last := raw_my, my_run := 1\<rparr>)
                   in (if my_run sy \<ge> INTENT_FRAMES then raw_my else 0, sy)))
      in ((mx, my), s2))"

subsection \<open>One frame\<close>

text \<open>
  What the camera and the landmark detector deliver for one frame: no frame at all, a
  frame without a face, or a face with its landmarks (normalised coordinates), the frame
  size and the outcome of the pose solve on it.
\<close>

record face_obs =
  landmark :: "nat \<Rightarrow> point"
  frame_w :: int
  frame_h :: int
  epnp_ok :: bool
  iterative_ok :: bool
  rq_angles :: "real \<times> real \<times> real"

datatype camera_frame = No_frame | No_face | Face face_obs

text \<open>The dictionary \<open>read_actions\<close> returns, and its initial value.\<close>

record actions =
  move_x :: int
  move_y :: int
  yaw :: real
  pitch :: real
  roll :: real
  left_eye_closed :: bool
  right_eye_closed :: bool
  face_found :: bool

definition neutral_actions :: actions where
  "neutral_actions =
     \<lparr>move_x = 0, move_y = 0, yaw = 0, pitch = 0, roll = 0,
      left_eye_closed = False, right_eye_closed = False, face_found = False\<rparr>"

text \<open>The array \<open>pts\<close>: landmark coordinates scaled to pixels.\<close>

definition pixel_points :: "face_obs \<Rightarrow> nat \<Rightarrow> point" where
  "pixel_points obs i =
     (fst (landmark obs i) * real_of_int (frame_w obs), snd (landmark obs i) * real_of_int (frame_h obs))"

text \<open>
  \<open>read_actions\<close> returns \<open>None\<close> when the camera read fails, and otherwise the
  actions of the frame, together with the updated controller.
\<close>

definition read_actions :: "FaceController \<Rightarrow> camera_frame \<Rightarrow> actions option \<times> FaceController" where
  "read_actions s cf =
     (case cf of
        No_frame \<Rightarrow> (None, s)
      | No_face \<Rightarrow> (Some neutral_actions, s)
      | Face obs \<Rightarrow>
          (let a0 = neutral_actions\<lparr>face_found := True\<rparr>;
               pts = pixel_points obs;
               pose = head_pose_pnp (epnp_ok obs) (iterative_ok obs) (rq_angles obs);
               (a1, s1) =
                 (case pose of
                    None \<Rightarrow> (a0, s)
                  | Some (pitch_w, yaw_w, roll_w) \<Rightarrow>
                      (let sp = s\<lparr>pitch_hist := deque_append 9 (pitch_hist s) pitch_w,
                                   yaw_hist := deque_append 9 (yaw_hist s) yaw_w,
                                   roll_hist := deque_append 9 (roll_hist s) roll_w\<rparr>;
                           pitch_s = np_mean (pitch_hist sp) - baseline_pitch sp;
                           yaw_s = np_mean (yaw_hist sp) - baseline_yaw sp;
                           roll_s = np_mean (roll_hist sp) - baseline_roll sp;
                           raw_mx0 = (if yaw_s < - YAW_TH then - 1
                                      else if yaw_s > YAW_TH then 1 else 0);
                           raw_mx = (if INVERT_X then raw_mx0 * - 1 else raw_mx0);
                           raw_my = (if pitch_s < - PITCH_TH then 1
                                     else if pitch_s > PITCH_TH then - 1
                                     else if \<bar>pitch_s\<bar> < PITCH_DEADZONE then 0 else 0);
                           (m, sf) = apply_intent_filter sp raw_mx raw_my
                       in (a0\<lparr>pitch := pitch_s, yaw := yaw_s, roll := roll_s,
                              move_x := fst m, move_y := snd m\<rparr>, sf)));
               earL = eye_ear pts LEFT_EYE;
               earR = eye_ear pts RIGHT_EYE;
               s2 = s1\<lparr>earL_hist := deque_append 5 (earL_hist s1) earL,
                        earR_hist := deque_append 5 (earR_hist s1) earR\<rparr>;
               earL_s = np_mean (earL_hist s2);
               earR_s = np_mean (earR_hist s2);
               a2 = (case baseline_earL s2 of
                       None \<Rightarrow> a1
                     | Some b \<Rightarrow> a1\<lparr>left_eye_closed := earL_s < b * BLINK_DROP\<rparr>);
               a3 = (case baseline_earR s2 of
                       None \<Rightarrow> a2
                     | Some b \<Rightarrow> a2\<lparr>right_eye_closed := earR_s < b * BLINK_DROP\<rparr>)
           in (Some a3, s2)))"

subsection \<open>Sequences of frames\<close>

fun run_read_actions ::
  "FaceController \<Rightarrow> camera_frame list \<Rightarrow> (actions option \<times> FaceController) list" where
  "run_read_actions s [] = []"
| "run_read_actions s (cf # cfs) =
     (let r = read_actions s cf in r # run_read_actions (snd r) cfs)"

definition after_frames :: "FaceController \<Rightarrow> camera_frame list \<Rightarrow> FaceController" where
  "after_frames s cfs = foldl (\<lambda>s cf. snd (read_actions s cf)) s cfs"

fun run_intent_filter ::
  "FaceController \<Rightarrow> (int \<times> int) list \<Rightarrow> ((int \<times> int) \<times> FaceController) list" where
  "run_intent_filter s [] = []"
| "run_intent_filter s ((raw_mx, raw_my) # rs) =
     (let r = apply_intent_filter s raw_mx raw_my in r # run_intent_filter (snd r) rs)"

subsection \<open>What the intent filter emits, in terms of the raw inputs alone\<close>

text \<open>
  \<open>run_length r i\<close> is the number of consecutive frames, ending at frame \<open>i\<close>, whose
  raw value is the one of frame \<open>i\<close>. The filter should emit the raw value of a frame
  when it is nonzero and the frame is at least the third of its run, and 0 otherwise.
\<close>

fun run_length :: "(nat \<Rightarrow> int) \<Rightarrow> nat \<Rightarrow> nat" where
  "run_length r 0 = 1"
| "run_length r (Suc i) = (if r (Suc i) = r i then Suc (run_length r i) else 1)"

definition emitted :: "(nat \<Rightarrow> int) \<Rightarrow> nat \<Rightarrow> int" where
  "emitted r i = (if r i \<noteq> 0 \<and> 3 \<le> run_length r i then r i else 0)"

text \<open>
  One axis of the filter, on the pair (run counter, last value); the filter is shown
  below to run two independent copies of it.
\<close>

type_synonym axis = "int \<times> int"

definition axis_step :: "axis \<Rightarrow> int \<Rightarrow> int \<times> axis" where
  "axis_step a raw =
     (if raw = 0 then (0, (0, 0))
      else (let a1 = (if raw = snd a then (fst a + 1, snd a) else (1, raw))
            in (if fst a1 \<ge> INTENT_FRAMES then raw else 0, a1)))"

fun axis_at :: "axis \<Rightarrow> (nat \<Rightarrow> int) \<Rightarrow> nat \<Rightarrow> axis" where
  "axis_at a r 0 = a"
| "axis_at a r (Suc i) = snd (axis_step (axis_at a r i) (r i))"

definition mx_axis :: "FaceController \<Rightarrow> axis" where
  "mx_axis s = (mx_run s, mx_last s)"

definition my_axis :: "FaceController \<Rightarrow> axis" where
  "my_axis s = (my_run s, my_last s)"

subsection \<open>What the windows should hold, in terms of the frames alone\<close>

text \<open>The last \<open>n\<close> elements of a list (all of them if there are fewer).\<close>

definition last_n :: "nat \<Rightarrow> 'a list \<Rightarrow> 'a list" where
  "last_n n xs = drop (length xs - n) xs"

text \<open>
  The samples a frame pushes: the wrapped pose, when a face is found and the pose solve
  succeeds, and the two eye aspect ratios, when a face is found.
\<close>

definition frame_pose :: "camera_frame \<Rightarrow> (real \<times> real \<times> real) option" where
  "frame_pose cf =
     (case cf of
        Face obs \<Rightarrow> head_pose_pnp (epnp_ok obs) (iterative_ok obs) (rq_angles obs)
      | _ \<Rightarrow> None)"

definition frame_ears :: "camera_frame \<Rightarrow> (real \<times> real) option" where
  "frame_ears cf =
     (case cf of
        Face obs \<Rightarrow> Some (eye_ear (pixel_points obs) LEFT_EYE, eye_ear (pixel_points obs) RIGHT_EYE)
      | _ \<Rightarrow> None)"

definition pushed_pitch :: "camera_frame list \<Rightarrow> real list" where
  "pushed_pitch cfs = map fst (List.map_filter frame_pose cfs)"

definition pushed_yaw :: "camera_frame list \<Rightarrow> real list" where
  "pushed_yaw cfs = map (\<lambda>p. fst (snd p)) (List.map_filter frame_pose cfs)"

definition pushed_roll :: "camera_frame list \<Rightarrow> real list" where
  "pushed_roll cfs = map (\<lambda>p. snd (snd p)) (List.map_filter frame_pose cfs)"

definition pushed_earL :: "camera_frame list \<Rightarrow> real list" where
  "pushed_earL cfs = map fst (List.map_filter frame_ears cfs)"

definition pushed_earR :: "camera_frame list \<Rightarrow> real list" where
  "pushed_earR cfs = map snd (List.map_filter frame_ears cfs)"

section \<open>Angle wrapping\<close>

lemma py_float_mod_360_range: "0 \<le> py_float_mod x 360 \<and> py_float_mod x 360 < 360"
proof -
  have lo: "of_int \<lfloor>x / 360\<rfloor> \<le> x / 360"
    by (rule of_int_floor_le)
  have hi: "x / 360 < of_int \<lfloor>x / 360\<rfloor> + 1"
    by linarith
  from lo hi show ?thesis
    unfolding py_float_mod_def by (simp add: field_simps)
qed

lemma yaw_wrap_half_open: "- 180 \<le> yaw_wrap deg \<and> yaw_wrap deg < 180"
  using py_float_mod_360_range [of "deg + 180"] by (simp add: yaw_wrap_def)

lemma wrap_human_angle_closed: "- 90 \<le> wrap_human_angle deg \<and> wrap_human_angle deg \<le> 90"
  using py_float_mod_360_range [of "deg + 180"]
  by (simp add: wrap_human_angle_def Let_def)

text \<open>
  Claim C3, as the code has it: for every input angle (in particular every angle in
  \<open>[-540, 540]\<close>) the yaw wrap lies in the closed interval \<open>[-180, 180]\<close> and
  \<open>wrap_human_angle\<close> lies in the closed interval \<open>[-90, 90]\<close>. The lower ends are
  attained, so the half-open intervals \<open>(-180, 180]\<close> and \<open>(-90, 90]\<close> of the
  specification do not hold.
\<close>

theorem angle_wrap_closed_range:
  "- 180 \<le> yaw_wrap deg \<and> yaw_wrap deg \<le> 180 \<and>
   - 90 \<le> wrap_human_angle deg \<and> wrap_human_angle deg \<le> 90"
  using yaw_wrap_half_open [of deg] wrap_human_angle_closed [of deg] by simp

text \<open>
  Counterexample to claim C3 as stated: the inputs \<open>180\<close> and \<open>-90\<close> lie in
  \<open>[-540, 540]\<close>, the yaw wrap of \<open>180\<close> is \<open>-180\<close>, outside \<open>(-180, 180]\<close>, and
  \<open>wrap_human_angle (-90)\<close> is \<open>-90\<close>, outside \<open>(-90, 90]\<close>.
\<close>

theorem angle_wrap_counterexample:
  "- 540 \<le> (180::real) \<and> (180::real) \<le> 540 \<and> \<not> (- 180 < yaw_wrap 180) \<and>
   - 540 \<le> (- 90::real) \<and> (- 90::real) \<le> 540 \<and> \<not> (- 90 < wrap_human_angle (- 90))"
  by (simp add: yaw_wrap_def wrap_human_angle_def py_float_mod_def)

section \<open>The hold-gesture machines\<close>

subsection \<open>The latch and the first frame that reaches the threshold\<close>

lemma hold_begin_le: "hold_begin c i \<le> i"
  by (induction i) auto


lemma hold_begin_same:
  "c i \<Longrightarrow> hold_begin c i \<le> j \<Longrightarrow> j \<le> i \<Longrightarrow> c j \<and> hold_begin c j = hold_begin c i"
proof (induction i)
  case 0
  then show ?case by simp
next
  case (Suc i)
  show ?case
  proof (cases "j = Suc i")
    case True
    with Suc.prems show ?thesis by simp
  next
    case False
    with Suc.prems have ji: "j \<le> i" by simp
    show ?thesis
    proof (cases "c i")
      case True
      with Suc.prems ji Suc.IH show ?thesis by simp
    next
      case False
      with Suc.prems ji show ?thesis by simp
    qed
  qed
qed



lemma hold_at_Suc_inv:
  "hold_at th (None, a) t c (Suc i) =
     (if c i then (Some (t (hold_begin c i)), \<forall>j\<in>{hold_begin c i..i}. t j - t (hold_begin c i) < th)
      else (None, True))"
proof (induction i)
  case 0
  show ?case by (auto simp: hold_step_def Let_def)
next
  case (Suc i)
  show ?case
  proof (cases "c (Suc i)")
    case False
    then show ?thesis by (simp add: hold_step_def)
  next
    case cS: True
    show ?thesis
    proof (cases "c i")
      case False
      with cS Suc show ?thesis by (auto simp: hold_step_def Let_def)
    next
      case True
      have le: "hold_begin c i \<le> i" by (rule hold_begin_le)
      have split: "{hold_begin c i..Suc i} = insert (Suc i) {hold_begin c i..i}"
        using le by auto
      from True cS Suc show ?thesis
        by (auto simp: hold_step_def Let_def split)
    qed
  qed
qed

lemma hold_fires:
  "fst (hold_step th (hold_at th (None, a) t c i) (t i) (c i)) = fires_at th t c i"
proof (cases i)
  case 0
  then show ?thesis by (auto simp: hold_step_def fires_at_def Let_def)
next
  case (Suc n)
  have le: "hold_begin c n \<le> n" by (rule hold_begin_le)
  have ivl: "set [hold_begin c n..<Suc n] = {hold_begin c n..n}" by auto
  show ?thesis
    unfolding Suc hold_at_Suc_inv
    using le by (auto simp: hold_step_def fires_at_def Let_def list_all_iff simp del: upt_Suc)
qed

lemma fired_in_hold_iff:
  assumes "c i"
  shows "(\<exists>j\<in>{hold_begin c i..i}. fires_at th t c j) =
         (\<exists>j\<in>{hold_begin c i..i}. th \<le> t j - t (hold_begin c i))"
proof
  assume "\<exists>j\<in>{hold_begin c i..i}. fires_at th t c j"
  then obtain j where j: "hold_begin c i \<le> j" "j \<le> i" and f: "fires_at th t c j" by auto
  from hold_begin_same [of c i j] assms j f have "th \<le> t j - t (hold_begin c i)"
    by (simp add: fires_at_def)
  with j show "\<exists>j\<in>{hold_begin c i..i}. th \<le> t j - t (hold_begin c i)" by auto
next
  let ?k = "hold_begin c i"
  let ?P = "\<lambda>j. ?k \<le> j \<and> j \<le> i \<and> th \<le> t j - t ?k"
  assume "\<exists>j\<in>{?k..i}. th \<le> t j - t ?k"
  then have "\<exists>j. ?P j" by auto
  then obtain j where j: "?P j" and least: "\<forall>m<j. \<not> ?P m"
    using exists_least_iff [of ?P] by blast
  from j have same: "c j \<and> hold_begin c j = ?k"
    using hold_begin_same [of c i j] assms by simp
  have "\<forall>m\<in>{?k..<j}. t m - t ?k < th"
  proof
    fix m assume m: "m \<in> {?k..<j}"
    with least j have "\<not> th \<le> t m - t ?k" by auto
    then show "t m - t ?k < th" by simp
  qed
  with j same have "fires_at th t c j"
    by (simp add: fires_at_def list_all_iff)
  with j show "\<exists>j\<in>{?k..i}. fires_at th t c j" by auto
qed


lemma fires_at_when_reached:
  "c i \<Longrightarrow> th \<le> t i - t (hold_begin c i) \<Longrightarrow> \<exists>j\<in>{hold_begin c i..i}. fires_at th t c j"
  using fired_in_hold_iff [of c i th t] hold_begin_le [of c i] by auto




subsection \<open>Both handlers are instances of the latch\<close>

lemma handle_right_only_hold_step:
  "fst (handle_right_only_hold s now r l th) = fst (hold_step th (ro_hold s) now (r \<and> \<not> l))"
  "ro_hold (snd (handle_right_only_hold s now r l th)) = snd (hold_step th (ro_hold s) now (r \<and> \<not> l))"
  by (cases "right_only_hold_start s";
      simp add: handle_right_only_hold_def hold_step_def ro_hold_def Let_def)+

lemma handle_both_hold_step:
  "fst (handle_both_hold s now r l th g) = fst (hold_step th (bo_hold s) now (\<not> g \<and> l \<and> r))"
  "bo_hold (snd (handle_both_hold s now r l th g)) = snd (hold_step th (bo_hold s) now (\<not> g \<and> l \<and> r))"
  by (cases "both_hold_start s";
      simp add: handle_both_hold_def hold_step_def bo_hold_def Let_def)+

lemma hold_at_shift:
  "hold_at th h t c (Suc i) =
     hold_at th (snd (hold_step th h (t 0) (c 0))) (\<lambda>j. t (Suc j)) (\<lambda>j. c (Suc j)) i"
  by (induction i) simp_all

lemma hold_at_Cons:
  "hold_at th h (\<lambda>j. F ((f # fs) ! j)) (\<lambda>j. G ((f # fs) ! j)) (Suc i) =
     hold_at th (snd (hold_step th h (F f) (G f))) (\<lambda>j. F (fs ! j)) (\<lambda>j. G (fs ! j)) i"
  using hold_at_shift [of th h "\<lambda>j. F ((f # fs) ! j)" "\<lambda>j. G ((f # fs) ! j)" i] by simp

lemma run_right_only_hold_nth:
  "i < length fs \<Longrightarrow>
   fst (run_right_only_hold th s fs ! i) =
     fst (hold_step th (hold_at th (ro_hold s) (\<lambda>j. frame_time (fs ! j)) (\<lambda>j. right_only_cond (fs ! j)) i)
            (frame_time (fs ! i)) (right_only_cond (fs ! i))) \<and>
   ro_hold (snd (run_right_only_hold th s fs ! i)) =
     hold_at th (ro_hold s) (\<lambda>j. frame_time (fs ! j)) (\<lambda>j. right_only_cond (fs ! j)) (Suc i)"
proof (induction fs arbitrary: s i)
  case Nil
  then show ?case by simp
next
  case (Cons f fs)
  obtain now r l where f: "f = (now, r, l)" by (cases f) auto
  show ?case
  proof (cases i)
    case 0
    then show ?thesis
      by (simp add: f Let_def handle_right_only_hold_step frame_time_def right_only_cond_def)
  next
    case (Suc n)
    with Cons.prems have n: "n < length fs" by simp
    have ft: "frame_time f = now" and fc: "right_only_cond f = (r \<and> \<not> l)"
      by (simp_all add: f frame_time_def right_only_cond_def)
    show ?thesis
      unfolding Suc
      using Cons.IH [OF n, of "snd (handle_right_only_hold s now r l th)"]
      by (simp add: hold_at_Cons ft [unfolded f] fc [unfolded f] handle_right_only_hold_step f Let_def del: hold_at.simps)
  qed
qed

lemma run_both_hold_nth:
  "i < length fs \<Longrightarrow>
   fst (run_both_hold th s fs ! i) =
     fst (hold_step th (hold_at th (bo_hold s) (\<lambda>j. frame_time (fs ! j)) (\<lambda>j. both_cond (fs ! j)) i)
            (frame_time (fs ! i)) (both_cond (fs ! i))) \<and>
   bo_hold (snd (run_both_hold th s fs ! i)) =
     hold_at th (bo_hold s) (\<lambda>j. frame_time (fs ! j)) (\<lambda>j. both_cond (fs ! j)) (Suc i)"
proof (induction fs arbitrary: s i)
  case Nil
  then show ?case by simp
next
  case (Cons f fs)
  obtain now r l g where f: "f = (now, r, l, g)" by (cases f) auto
  show ?case
  proof (cases i)
    case 0
    then show ?thesis
      by (simp add: f Let_def handle_both_hold_step frame_time_def both_cond_def)
  next
    case (Suc n)
    with Cons.prems have n: "n < length fs" by simp
    have ft: "frame_time f = now" and fc: "both_cond f = (\<not> g \<and> l \<and> r)"
      by (simp_all add: f frame_time_def both_cond_def)
    show ?thesis
      unfolding Suc
      using Cons.IH [OF n, of "snd (handle_both_hold s now r l th g)"]
      by (simp add: hold_at_Cons ft [unfolded f] fc [unfolded f] handle_both_hold_step f Let_def del: hold_at.simps)
  qed
qed

lemma run_right_only_hold_fires:
  assumes "right_only_hold_start s = None" and "i < length fs"
  shows "fst (run_right_only_hold th s fs ! i) =
         fires_at th (\<lambda>j. frame_time (fs ! j)) (\<lambda>j. right_only_cond (fs ! j)) i"
proof -
  have h: "ro_hold s = (None, right_only_hold_armed s)"
    using assms(1) by (simp add: ro_hold_def)
  show ?thesis
    using run_right_only_hold_nth [OF assms(2), of th s]
      hold_fires [of th "right_only_hold_armed s" "\<lambda>j. frame_time (fs ! j)"
        "\<lambda>j. right_only_cond (fs ! j)" i]
    unfolding h by simp
qed

lemma run_both_hold_fires:
  assumes "both_hold_start s = None" and "i < length fs"
  shows "fst (run_both_hold th s fs ! i) =
         fires_at th (\<lambda>j. frame_time (fs ! j)) (\<lambda>j. both_cond (fs ! j)) i"
proof -
  have h: "bo_hold s = (None, both_hold_armed s)"
    using assms(1) by (simp add: bo_hold_def)
  show ?thesis
    using run_both_hold_nth [OF assms(2), of th s]
      hold_fires [of th "both_hold_armed s" "\<lambda>j. frame_time (fs ! j)"
        "\<lambda>j. both_cond (fs ! j)" i]
    unfolding h by simp
qed

lemma run_right_only_hold_state:
  assumes "right_only_hold_start s = None" and "i < length fs"
  shows "right_only_hold_start (snd (run_right_only_hold th s fs ! i)) =
           (if right_only_cond (fs ! i)
            then Some (frame_time (fs ! hold_begin (\<lambda>m. right_only_cond (fs ! m)) i)) else None) \<and>
         right_only_hold_armed (snd (run_right_only_hold th s fs ! i)) =
           (\<not> (right_only_cond (fs ! i) \<and>
               (\<exists>j\<in>{hold_begin (\<lambda>m. right_only_cond (fs ! m)) i..i}.
                   fst (run_right_only_hold th s fs ! j))))"
proof -
  let ?t = "\<lambda>j. frame_time (fs ! j)" and ?c = "\<lambda>j. right_only_cond (fs ! j)"
  let ?k = "hold_begin ?c i"
  have h: "ro_hold s = (None, right_only_hold_armed s)"
    using assms(1) by (simp add: ro_hold_def)
  have st: "ro_hold (snd (run_right_only_hold th s fs ! i)) =
      (if ?c i then (Some (?t ?k), \<forall>j\<in>{?k..i}. ?t j - ?t ?k < th) else (None, True))"
    using run_right_only_hold_nth [OF assms(2), of th s]
      hold_at_Suc_inv [of th "right_only_hold_armed s" ?t ?c i]
    unfolding h by simp
  have outs: "(\<exists>j\<in>{?k..i}. fst (run_right_only_hold th s fs ! j)) = (\<exists>j\<in>{?k..i}. fires_at th ?t ?c j)"
    using run_right_only_hold_fires [OF assms(1), of _ fs th] assms(2) by auto
  show ?thesis
  proof (cases "?c i")
    case False
    with st show ?thesis by (simp add: ro_hold_def)
  next
    case True
    have "(\<exists>j\<in>{?k..i}. fires_at th ?t ?c j) = (\<exists>j\<in>{?k..i}. th \<le> ?t j - ?t ?k)"
      using fired_in_hold_iff [of ?c i th ?t] True by simp
    with st True outs show ?thesis by (auto simp: ro_hold_def)
  qed
qed

lemma run_both_hold_state:
  assumes "both_hold_start s = None" and "i < length fs"
  shows "both_hold_start (snd (run_both_hold th s fs ! i)) =
           (if both_cond (fs ! i)
            then Some (frame_time (fs ! hold_begin (\<lambda>m. both_cond (fs ! m)) i)) else None) \<and>
         both_hold_armed (snd (run_both_hold th s fs ! i)) =
           (\<not> (both_cond (fs ! i) \<and>
               (\<exists>j\<in>{hold_begin (\<lambda>m. both_cond (fs ! m)) i..i}.
                   fst (run_both_hold th s fs ! j))))"
proof -
  let ?t = "\<lambda>j. frame_time (fs ! j)" and ?c = "\<lambda>j. both_cond (fs ! j)"
  let ?k = "hold_begin ?c i"
  have h: "bo_hold s = (None, both_hold_armed s)"
    using assms(1) by (simp add: bo_hold_def)
  have st: "bo_hold (snd (run_both_hold th s fs ! i)) =
      (if ?c i then (Some (?t ?k), \<forall>j\<in>{?k..i}. ?t j - ?t ?k < th) else (None, True))"
    using run_both_hold_nth [OF assms(2), of th s]
      hold_at_Suc_inv [of th "both_hold_armed s" ?t ?c i]
    unfolding h by simp
  have outs: "(\<exists>j\<in>{?k..i}. fst (run_both_hold th s fs ! j)) = (\<exists>j\<in>{?k..i}. fires_at th ?t ?c j)"
    using run_both_hold_fires [OF assms(1), of _ fs th] assms(2) by auto
  show ?thesis
  proof (cases "?c i")
    case False
    with st show ?thesis by (simp add: bo_hold_def)
  next
    case True
    have "(\<exists>j\<in>{?k..i}. fires_at th ?t ?c j) = (\<exists>j\<in>{?k..i}. th \<le> ?t j - ?t ?k)"
      using fired_in_hold_iff [of ?c i th ?t] True by simp
    with st True outs show ?thesis by (auto simp: bo_hold_def)
  qed
qed






text \<open>
  Claim C8, as the code has it: run either handler over any sequence of frames, starting
  with no hold in progress. After every frame the start timestamp is \<open>None\<close> exactly
  when the condition the machine acts on was false on that frame, which for the place
  machine is "both eyes closed and \<open>game_over\<close> false"; and the armed flag is false
  exactly when the condition holds and the handler has returned True on some frame of
  the current continuous hold.
\<close>

theorem hold_state_invariant:
  assumes "right_only_hold_start s = None" and "both_hold_start s = None"
    and "i < length fs" and "i < length gs"
  shows "(right_only_hold_start (snd (run_right_only_hold th s fs ! i)) = None) =
           (\<not> right_only_cond (fs ! i)) \<and>
         right_only_hold_armed (snd (run_right_only_hold th s fs ! i)) =
           (\<not> (right_only_cond (fs ! i) \<and>
               (\<exists>j\<in>{hold_begin (\<lambda>m. right_only_cond (fs ! m)) i..i}.
                   fst (run_right_only_hold th s fs ! j)))) \<and>
         (both_hold_start (snd (run_both_hold th' s gs ! i)) = None) =
           (\<not> both_cond (gs ! i)) \<and>
         both_hold_armed (snd (run_both_hold th' s gs ! i)) =
           (\<not> (both_cond (gs ! i) \<and>
               (\<exists>j\<in>{hold_begin (\<lambda>m. both_cond (gs ! m)) i..i}.
                   fst (run_both_hold th' s gs ! j))))"
  using run_right_only_hold_state [OF assms(1) assms(3), of th]
    run_both_hold_state [OF assms(2) assms(4), of th']
  by simp

text \<open>
  Witness for C8: after the third frame of a right-eye-only hold sampled at 0, 2, 3 and 4
  seconds the reset machine keeps the start timestamp 0 and is no longer armed; after
  the third frame of a both-eyes hold sampled at 0, 0.2 and 0.4 seconds the same holds
  for the place machine.
\<close>

theorem hold_state_invariant_witness:
  "right_only_hold_start InputState_init = None \<and> both_hold_start InputState_init = None \<and>
   (2::nat) < length [(0::real, True, False), (2, True, False), (3, True, False), (4, True, False)] \<and>
   (2::nat) < length [(0::real, True, True, False), (2 / 10, True, True, False), (4 / 10, True, True, False)] \<and>
   right_only_cond ([(0::real, True, False), (2, True, False), (3, True, False), (4, True, False)] ! 2) \<and>
   right_only_hold_start (snd (run_right_only_hold 3 InputState_init
      [(0, True, False), (2, True, False), (3, True, False), (4, True, False)] ! 2)) = Some 0 \<and>
   \<not> right_only_hold_armed (snd (run_right_only_hold 3 InputState_init
      [(0, True, False), (2, True, False), (3, True, False), (4, True, False)] ! 2)) \<and>
   both_cond ([(0::real, True, True, False), (2 / 10, True, True, False), (4 / 10, True, True, False)] ! 2) \<and>
   both_hold_start (snd (run_both_hold (35 / 100) InputState_init
      [(0, True, True, False), (2 / 10, True, True, False), (4 / 10, True, True, False)] ! 2)) = Some 0 \<and>
   \<not> both_hold_armed (snd (run_both_hold (35 / 100) InputState_init
      [(0, True, True, False), (2 / 10, True, True, False), (4 / 10, True, True, False)] ! 2))"
  using hold_state_invariant [of InputState_init 2
      "[(0, True, False), (2, True, False), (3, True, False), (4, True, False)]"
      "[(0, True, True, False), (2 / 10, True, True, False), (4 / 10, True, True, False)]"
      3 "35 / 100"]
  by (simp add: InputState_init_def handle_right_only_hold_def handle_both_hold_def
      right_only_cond_def both_cond_def Let_def)

text \<open>
  Counterexample to claim C8 as stated: on a frame with both eyes closed and
  \<open>game_over\<close> true the place handler clears the start timestamp of a hold in
  progress, so the timestamp is \<open>None\<close> although both eyes are closed.
\<close>

theorem hold_state_counterexample:
  "both_eyes_cond (1, True, True) \<and>
   both_hold_start (snd (run_both_hold PLACE_HOLD_SECONDS InputState_init
      [(0, True, True, False), (1, True, True, True)] ! 0)) = Some 0 \<and>
   both_hold_start (snd (run_both_hold PLACE_HOLD_SECONDS InputState_init
      [(0, True, True, False), (1, True, True, True)] ! 1)) = None"
  by (simp add: InputState_init_def PLACE_HOLD_SECONDS_def handle_both_hold_def
      both_eyes_cond_def Let_def)

section \<open>The move-armed latch\<close>

lemma run_move_block_0: "fs \<noteq> [] \<Longrightarrow> run_move_block s fs ! 0 = frame_step s (fs ! 0)"
  by (cases fs) (auto simp: frame_step_def Let_def)

lemma run_move_block_Suc:
  "Suc j < length fs \<Longrightarrow>
   run_move_block s fs ! Suc j = frame_step (snd (run_move_block s fs ! j)) (fs ! Suc j)"
proof (induction fs arbitrary: s j)
  case Nil
  then show ?case by simp
next
  case (Cons f fs)
  obtain recal mx my yw pt where f: "f = (recal, mx, my, yw, pt)" by (cases f) auto
  show ?case
  proof (cases j)
    case 0
    with Cons.prems have "fs \<noteq> []" by auto
    then show ?thesis
      using 0 by (simp add: f Let_def run_move_block_0)
  next
    case (Suc n)
    with Cons.prems have "Suc n < length fs" by simp
    from Cons.IH [OF this] show ?thesis
      using Suc by (simp add: f Let_def)
  qed
qed

lemma frame_step_moved:
  assumes "fst (frame_step s f) \<noteq> None"
  shows "\<not> neutral_frame f \<and> \<not> move_armed (snd (frame_step s f)) \<and> neutral_run (snd (frame_step s f)) = 0"
proof -
  obtain recal mx my yw pt where f: "f = (recal, mx, my, yw, pt)" by (cases f) auto
  obtain cx cy where c: "choose_axis_no_diagonal mx my yw pt = (cx, cy)" by fastforce
  from assms show ?thesis
    by (auto simp: f c frame_step_def move_block_def neutral_frame_def update_neutral_and_arm_def
        consume_move_arm_if_moved_def Let_def split: if_splits)
qed

lemma frame_step_not_neutral:
  assumes "\<not> neutral_frame f"
  shows "neutral_run (snd (frame_step s f)) = 0"
proof -
  obtain recal mx my yw pt where f: "f = (recal, mx, my, yw, pt)" by (cases f) auto
  obtain cx cy where c: "choose_axis_no_diagonal mx my yw pt = (cx, cy)" by fastforce
  from assms show ?thesis
    by (auto simp: f c frame_step_def move_block_def neutral_frame_def update_neutral_and_arm_def
        consume_move_arm_if_moved_def Let_def)
qed

lemma frame_step_moved_armed:
  assumes "fst (frame_step s f) \<noteq> None" and "\<not> recalibrated f"
  shows "move_armed s"
proof -
  obtain recal mx my yw pt where f: "f = (recal, mx, my, yw, pt)" by (cases f) auto
  obtain cx cy where c: "choose_axis_no_diagonal mx my yw pt = (cx, cy)" by fastforce
  from assms show ?thesis
    by (auto simp: f c frame_step_def move_block_def recalibrated_def update_neutral_and_arm_def
        consume_move_arm_if_moved_def Let_def split: if_splits)
qed

lemma frame_step_neutral:
  assumes "neutral_frame f" and "\<not> recalibrated f"
  shows "neutral_run (snd (frame_step s f)) = neutral_run s + 1 \<and>
         move_armed (snd (frame_step s f)) = (move_armed s \<or> 2 \<le> neutral_run s + 1)"
proof -
  obtain recal mx my yw pt where f: "f = (recal, mx, my, yw, pt)" by (cases f) auto
  from assms show ?thesis
    by (auto simp: f frame_step_def move_block_def neutral_frame_def recalibrated_def
        update_neutral_and_arm_def consume_move_arm_if_moved_def NEUTRAL_FRAMES_REQUIRED_def Let_def)
qed

lemma frame_step_other:
  assumes "\<not> neutral_frame f" and "\<not> recalibrated f"
  shows "move_armed (snd (frame_step s f)) \<longrightarrow> move_armed s"
proof -
  obtain recal mx my yw pt where f: "f = (recal, mx, my, yw, pt)" by (cases f) auto
  obtain cx cy where c: "choose_axis_no_diagonal mx my yw pt = (cx, cy)" by fastforce
  from assms show ?thesis
    by (auto simp: f c frame_step_def move_block_def neutral_frame_def recalibrated_def
        update_neutral_and_arm_def consume_move_arm_if_moved_def Let_def split: if_splits)
qed

lemma rearm_cause_iff:
  "rearm_cause fs i j =
     ((\<exists>k. i < k \<and> k \<le> j \<and> recalibrated (fs ! k)) \<or>
      (\<exists>k. i < k \<and> Suc k \<le> j \<and> neutral_frame (fs ! k) \<and> neutral_frame (fs ! Suc k)))"
  unfolding rearm_cause_def list_ex_iff by (auto simp: less_Suc_eq_le Suc_le_eq)

lemma rearm_cause_mono: "rearm_cause fs i j \<Longrightarrow> j \<le> j' \<Longrightarrow> rearm_cause fs i j'"
  unfolding rearm_cause_iff by (meson le_trans)

lemma after_move_invariant:
  assumes "fst (run_move_block s fs ! i) \<noteq> None" and "i + d < length fs"
  shows "rearm_cause fs i (i + d) \<or>
         (\<not> move_armed (snd (run_move_block s fs ! (i + d))) \<and>
          (1 \<le> neutral_run (snd (run_move_block s fs ! (i + d))) \<longrightarrow> 0 < d \<and> neutral_frame (fs ! (i + d))) \<and>
          neutral_run (snd (run_move_block s fs ! (i + d))) \<le> 1)"
  using assms(2)
proof (induction d)
  case 0
  have step: "run_move_block s fs ! i = frame_step (if i = 0 then s else snd (run_move_block s fs ! (i - 1))) (fs ! i)"
  proof (cases i)
    case 0
    with \<open>i + 0 < length fs\<close> show ?thesis by (simp add: run_move_block_0)
  next
    case (Suc n)
    with \<open>i + 0 < length fs\<close> show ?thesis by (simp add: run_move_block_Suc)
  qed
  have m: "fst (frame_step (if i = 0 then s else snd (run_move_block s fs ! (i - 1))) (fs ! i)) \<noteq> None"
    using assms(1) step by simp
  from frame_step_moved [OF m] show ?case
    by (simp add: step)
next
  case (Suc d)
  let ?j = "i + d"
  let ?s = "snd (run_move_block s fs ! ?j)"
  have j: "?j < length fs" and sj: "Suc ?j < length fs" using Suc.prems by simp_all
  have step: "run_move_block s fs ! (i + Suc d) = frame_step ?s (fs ! Suc ?j)"
    using run_move_block_Suc [OF sj, of s] by simp
  show ?case
  proof (cases "rearm_cause fs i ?j")
    case True
    then show ?thesis using rearm_cause_mono [of fs i ?j "i + Suc d"] by simp
  next
    case False
    with Suc.IH [OF j] have inv: "\<not> move_armed ?s"
      "1 \<le> neutral_run ?s \<longrightarrow> 0 < d \<and> neutral_frame (fs ! ?j)" "neutral_run ?s \<le> 1"
      by simp_all
    show ?thesis
    proof (cases "recalibrated (fs ! Suc ?j)")
      case True
      then have "rearm_cause fs i (i + Suc d)"
        unfolding rearm_cause_iff by (intro disjI1 exI [of _ "Suc ?j"]) simp
      then show ?thesis by simp
    next
      case nocal: False
      show ?thesis
      proof (cases "neutral_frame (fs ! Suc ?j)")
        case True
        note n = frame_step_neutral [OF True nocal, of ?s]
        show ?thesis
        proof (cases "1 \<le> neutral_run ?s")
          case True
          with inv have "0 < d" "neutral_frame (fs ! ?j)" by simp_all
          with \<open>neutral_frame (fs ! Suc ?j)\<close> have "rearm_cause fs i (i + Suc d)"
            unfolding rearm_cause_iff by (intro disjI2 exI [of _ ?j]) simp
          then show ?thesis by simp
        next
          case False
          with n inv \<open>neutral_frame (fs ! Suc ?j)\<close> show ?thesis
            unfolding step by simp
        qed
      next
        case False
        from frame_step_other [OF False nocal, of ?s] frame_step_not_neutral [OF False, of ?s] inv
        show ?thesis unfolding step by simp
      qed
    qed
  qed
qed

text \<open>
  Claim C10, as the code has it: run the move block over any sequence of frames from any
  state, and let a cursor move be executed at frame \<open>i\<close>. Then at every later frame
  \<open>j\<close>: if \<open>move_armed\<close> is true after frame \<open>j\<close>, then since frame \<open>i\<close> either
  \<open>on_calibrate\<close> has been called or two consecutive neutral frames have been seen; if
  a cursor move is executed at frame \<open>j\<close>, then either \<open>on_calibrate\<close> was called at
  some frame of \<open>i+1 .. j\<close> or there are two consecutive neutral frames strictly between
  \<open>i\<close> and \<open>j\<close>; and a frame with a nonzero delta leaves the neutral-run counter
  at 0.
\<close>

theorem move_rearm_needs_neutral_frames:
  assumes "i < j" and "j < length fs" and "fst (run_move_block s fs ! i) \<noteq> None"
  shows "(move_armed (snd (run_move_block s fs ! j)) \<longrightarrow> rearm_cause fs i j) \<and>
         (fst (run_move_block s fs ! j) \<noteq> None \<longrightarrow> recalibrated (fs ! j) \<or> rearm_cause fs i (j - 1)) \<and>
         (\<not> neutral_frame (fs ! j) \<longrightarrow> neutral_run (snd (run_move_block s fs ! j)) = 0)"
proof -
  obtain d where d: "j = i + Suc d"
    using assms(1) less_iff_Suc_add by auto
  let ?p = "i + d"
  let ?s = "snd (run_move_block s fs ! ?p)"
  have p: "?p < length fs" and sp: "Suc ?p < length fs" using assms(2) d by simp_all
  have step: "run_move_block s fs ! j = frame_step ?s (fs ! j)"
    using run_move_block_Suc [OF sp, of s] d by simp
  have a: "move_armed (snd (run_move_block s fs ! j)) \<longrightarrow> rearm_cause fs i j"
    using after_move_invariant [OF assms(3), of "Suc d"] assms(2) d by auto
  have b: "fst (run_move_block s fs ! j) \<noteq> None \<longrightarrow> recalibrated (fs ! j) \<or> rearm_cause fs i (j - 1)"
  proof (intro impI)
    assume m: "fst (run_move_block s fs ! j) \<noteq> None"
    show "recalibrated (fs ! j) \<or> rearm_cause fs i (j - 1)"
    proof (cases "recalibrated (fs ! j)")
      case True
      then show ?thesis by simp
    next
      case False
      from m have "fst (frame_step ?s (fs ! j)) \<noteq> None" by (simp add: step)
      from frame_step_moved_armed [OF this False] have "move_armed ?s" .
      with after_move_invariant [OF assms(3) p] have "rearm_cause fs i ?p" by blast
      then show ?thesis by (simp add: d)
    qed
  qed
  have c: "\<not> neutral_frame (fs ! j) \<longrightarrow> neutral_run (snd (run_move_block s fs ! j)) = 0"
    using frame_step_not_neutral [of "fs ! j" ?s] by (simp add: step)
  from a b c show ?thesis by simp
qed

text \<open>
  Witness for C10: a move, two neutral frames and the same move again; both moves are
  executed, the latch is armed again after the second neutral frame, and the two neutral
  frames are the cause.
\<close>

theorem move_rearm_needs_neutral_frames_witness:
  "(0::nat) < 2 \<and> (0::nat) < 3 \<and>
   (3::nat) < length [(False, 1::int, 0::int, 0::real, 0::real), (False, 0, 0, 0, 0),
                      (False, 0, 0, 0, 0), (False, 1, 0, 0, 0)] \<and>
   map fst (run_move_block InputState_init
      [(False, 1, 0, 0, 0), (False, 0, 0, 0, 0), (False, 0, 0, 0, 0), (False, 1, 0, 0, 0)]) =
     [Some (1, 0), None, None, Some (1, 0)] \<and>
   move_armed (snd (run_move_block InputState_init
      [(False, 1, 0, 0, 0), (False, 0, 0, 0, 0), (False, 0, 0, 0, 0), (False, 1, 0, 0, 0)] ! 2)) \<and>
   \<not> neutral_frame ([(False, 1::int, 0::int, 0::real, 0::real), (False, 0, 0, 0, 0),
                      (False, 0, 0, 0, 0), (False, 1, 0, 0, 0)] ! 3) \<and>
   neutral_frame ([(False, 1::int, 0::int, 0::real, 0::real), (False, 0, 0, 0, 0),
                      (False, 0, 0, 0, 0), (False, 1, 0, 0, 0)] ! 1) \<and>
   neutral_frame ([(False, 1::int, 0::int, 0::real, 0::real), (False, 0, 0, 0, 0),
                      (False, 0, 0, 0, 0), (False, 1, 0, 0, 0)] ! 2) \<and>
   rearm_cause [(False, 1, 0, 0, 0), (False, 0, 0, 0, 0), (False, 0, 0, 0, 0), (False, 1, 0, 0, 0)] 0 2"
  using move_rearm_needs_neutral_frames [of 0 2
      "[(False, 1, 0, 0, 0), (False, 0, 0, 0, 0), (False, 0, 0, 0, 0), (False, 1, 0, 0, 0)]"
      InputState_init]
    move_rearm_needs_neutral_frames [of 0 3
      "[(False, 1, 0, 0, 0), (False, 0, 0, 0, 0), (False, 0, 0, 0, 0), (False, 1, 0, 0, 0)]"
      InputState_init]
  by (simp add: InputState_init_def move_block_def choose_axis_no_diagonal_def
      update_neutral_and_arm_def consume_move_arm_if_moved_def NEUTRAL_FRAMES_REQUIRED_def
      neutral_frame_def recalibrated_def Let_def)

text \<open>
  Counterexample to claim C10 as stated: the head stays turned, a cursor move is executed,
  and on the next frame of the block, the loop having called \<open>on_calibrate\<close> (as it does
  at line 151 when the reset gesture fires on that very frame), the cursor moves
  again: two executed moves with no neutral frame at all.
\<close>

theorem move_rearm_counterexample:
  "map fst (run_move_block InputState_init [(False, 1, 0, 0, 0), (True, 1, 0, 0, 0)]) =
     [Some (1, 0), Some (1, 0)] \<and>
   \<not> neutral_frame (False, 1, 0, 0, 0) \<and> \<not> neutral_frame (True, 1, 0, 0, 0)"
  by (simp add: InputState_init_def move_block_def choose_axis_no_diagonal_def
      update_neutral_and_arm_def consume_move_arm_if_moved_def on_calibrate_def
      NEUTRAL_FRAMES_REQUIRED_def neutral_frame_def Let_def)

section \<open>The directional intent filter\<close>

lemma run_length_pos: "1 \<le> run_length r i"
  by (induction i) simp_all

lemma axis_at_Suc_inv:
  "axis_at (n, 0) r (Suc i) = (if r i = 0 then 0 else int (run_length r i), r i)"
proof (induction i)
  case 0
  show ?case by (simp add: axis_step_def)
next
  case (Suc i)
  have "axis_at (n, 0) r (Suc (Suc i)) = snd (axis_step (axis_at (n, 0) r (Suc i)) (r (Suc i)))"
    by simp
  also have "\<dots> = (if r (Suc i) = 0 then 0 else int (run_length r (Suc i)), r (Suc i))"
    unfolding Suc.IH by (simp add: axis_step_def)
  finally show ?case .
qed

lemma axis_step_out:
  "fst (axis_step a raw) =
     (if raw \<noteq> 0 \<and> INTENT_FRAMES \<le> fst (snd (axis_step a raw)) then raw else 0)"
  by (simp add: axis_step_def Let_def)

lemma axis_emitted:
  "fst (axis_step (axis_at (n, 0) r i) (r i)) = emitted r i"
proof -
  have "fst (axis_step (axis_at (n, 0) r i) (r i)) =
      (if r i \<noteq> 0 \<and> INTENT_FRAMES \<le> fst (axis_at (n, 0) r (Suc i)) then r i else 0)"
    using axis_step_out [of "axis_at (n, 0) r i" "r i"] by simp
  also have "\<dots> = emitted r i"
    unfolding axis_at_Suc_inv emitted_def by (simp add: INTENT_FRAMES_def)
  finally show ?thesis .
qed

lemma apply_intent_filter_axes:
  "fst (fst (apply_intent_filter s rx ry)) = fst (axis_step (mx_axis s) rx)"
  "snd (fst (apply_intent_filter s rx ry)) = fst (axis_step (my_axis s) ry)"
  "mx_axis (snd (apply_intent_filter s rx ry)) = snd (axis_step (mx_axis s) rx)"
  "my_axis (snd (apply_intent_filter s rx ry)) = snd (axis_step (my_axis s) ry)"
  by (simp_all add: apply_intent_filter_def axis_step_def mx_axis_def my_axis_def Let_def)

lemma axis_at_shift:
  "axis_at a r (Suc i) = axis_at (snd (axis_step a (r 0))) (\<lambda>j. r (Suc j)) i"
  by (induction i) simp_all

lemma axis_at_Cons:
  "axis_at a (\<lambda>j. F ((f # fs) ! j)) (Suc i) = axis_at (snd (axis_step a (F f))) (\<lambda>j. F (fs ! j)) i"
  using axis_at_shift [of a "\<lambda>j. F ((f # fs) ! j)" i] by simp

lemma run_intent_filter_nth:
  "i < length rs \<Longrightarrow>
   fst (fst (run_intent_filter s rs ! i)) =
     fst (axis_step (axis_at (mx_axis s) (\<lambda>j. fst (rs ! j)) i) (fst (rs ! i))) \<and>
   snd (fst (run_intent_filter s rs ! i)) =
     fst (axis_step (axis_at (my_axis s) (\<lambda>j. snd (rs ! j)) i) (snd (rs ! i))) \<and>
   mx_axis (snd (run_intent_filter s rs ! i)) = axis_at (mx_axis s) (\<lambda>j. fst (rs ! j)) (Suc i) \<and>
   my_axis (snd (run_intent_filter s rs ! i)) = axis_at (my_axis s) (\<lambda>j. snd (rs ! j)) (Suc i)"
proof (induction rs arbitrary: s i)
  case Nil
  then show ?case by simp
next
  case (Cons f rs)
  obtain rx ry where f: "f = (rx, ry)" by (cases f) auto
  show ?case
  proof (cases i)
    case 0
    then show ?thesis by (simp add: f Let_def apply_intent_filter_axes)
  next
    case (Suc n)
    with Cons.prems have n: "n < length rs" by simp
    show ?thesis
      unfolding Suc
      using Cons.IH [OF n, of "snd (apply_intent_filter s rx ry)"]
      by (simp add: axis_at_Cons f Let_def apply_intent_filter_axes del: axis_at.simps)
  qed
qed

lemma run_length_three_iff:
  "(3 \<le> run_length r i) = (2 \<le> i \<and> r (i - 1) = r i \<and> r (i - 2) = r i)"
proof (cases i)
  case 0
  then show ?thesis by simp
next
  case (Suc k)
  show ?thesis
  proof (cases k)
    case 0
    with Suc show ?thesis by simp
  next
    case (Suc m)
    have "1 \<le> run_length r m" by (rule run_length_pos)
    with \<open>i = Suc k\<close> Suc show ?thesis by auto
  qed
qed

lemma emitted_three_frames:
  "emitted r i = (if 2 \<le> i \<and> r i \<noteq> 0 \<and> r (i - 1) = r i \<and> r (i - 2) = r i then r i else 0)"
  unfolding emitted_def run_length_three_iff by auto

text \<open>
  Reading \<open>emitted\<close>: a value emits nothing on the first two frames of its run, it is
  emitted on every frame whose two predecessors carry the same nonzero value, and nothing
  but 0 or the raw value of the frame is ever emitted.
\<close>

lemma emitted_first_two_frames:
  assumes "i = 0 \<or> r (i - 1) \<noteq> r i"
  shows "emitted r i = 0 \<and> emitted r (Suc i) = 0"
proof -
  have "run_length r i = 1" using assms by (cases i) auto
  then show ?thesis by (simp add: emitted_def)
qed

lemma emitted_third_frame_on:
  assumes "r i \<noteq> 0" and "r (Suc i) = r i" and "r (Suc (Suc i)) = r i"
  shows "emitted r (Suc (Suc i)) = r i"
  using assms run_length_pos [of r i] by (simp add: emitted_def)

lemma emitted_zero_or_raw: "emitted r i = 0 \<or> emitted r i = r i"
  by (simp add: emitted_def)

text \<open>
  Claim C2: feed any sequence of raw inputs to \<open>_apply_intent_filter\<close>, starting from
  the reset state (run counters 0, last values 0). On every frame and on each axis the
  effective output is the raw value of the frame if that value is nonzero and the two
  frames before carry the same value, so that this frame is at least the third
  consecutive frame of its run, and 0 otherwise: a value held for exactly two frames is
  never emitted, and a value held for three or more frames is emitted from the third
  frame on and not before. After the frame the run counter of the axis is 0 if the raw
  input was 0, and the length of the current run otherwise.
\<close>

theorem intent_filter_emits_after_three:
  assumes "mx_run s = 0" and "mx_last s = 0" and "my_run s = 0" and "my_last s = 0"
    and "i < length rs"
  shows "fst (fst (run_intent_filter s rs ! i)) =
           (if 2 \<le> i \<and> fst (rs ! i) \<noteq> 0 \<and>
               fst (rs ! (i - 1)) = fst (rs ! i) \<and> fst (rs ! (i - 2)) = fst (rs ! i)
            then fst (rs ! i) else 0) \<and>
         snd (fst (run_intent_filter s rs ! i)) =
           (if 2 \<le> i \<and> snd (rs ! i) \<noteq> 0 \<and>
               snd (rs ! (i - 1)) = snd (rs ! i) \<and> snd (rs ! (i - 2)) = snd (rs ! i)
            then snd (rs ! i) else 0) \<and>
         fst (fst (run_intent_filter s rs ! i)) = emitted (\<lambda>j. fst (rs ! j)) i \<and>
         snd (fst (run_intent_filter s rs ! i)) = emitted (\<lambda>j. snd (rs ! j)) i \<and>
         mx_run (snd (run_intent_filter s rs ! i)) =
           (if fst (rs ! i) = 0 then 0 else int (run_length (\<lambda>j. fst (rs ! j)) i)) \<and>
         my_run (snd (run_intent_filter s rs ! i)) =
           (if snd (rs ! i) = 0 then 0 else int (run_length (\<lambda>j. snd (rs ! j)) i))"
proof -
  have x: "mx_axis s = (0, 0)" and y: "my_axis s = (0, 0)"
    using assms by (simp_all add: mx_axis_def my_axis_def)
  note nth = run_intent_filter_nth [OF assms(5), of s, unfolded x y]
  have "mx_axis (snd (run_intent_filter s rs ! i)) =
      (if fst (rs ! i) = 0 then 0 else int (run_length (\<lambda>j. fst (rs ! j)) i), fst (rs ! i))"
    using nth axis_at_Suc_inv [of 0 "\<lambda>j. fst (rs ! j)" i] by simp
  then have rx: "mx_run (snd (run_intent_filter s rs ! i)) =
      (if fst (rs ! i) = 0 then 0 else int (run_length (\<lambda>j. fst (rs ! j)) i))"
    by (simp add: mx_axis_def)
  have "my_axis (snd (run_intent_filter s rs ! i)) =
      (if snd (rs ! i) = 0 then 0 else int (run_length (\<lambda>j. snd (rs ! j)) i), snd (rs ! i))"
    using nth axis_at_Suc_inv [of 0 "\<lambda>j. snd (rs ! j)" i] by simp
  then have ry: "my_run (snd (run_intent_filter s rs ! i)) =
      (if snd (rs ! i) = 0 then 0 else int (run_length (\<lambda>j. snd (rs ! j)) i))"
    by (simp add: my_axis_def)
  have ox: "fst (fst (run_intent_filter s rs ! i)) = emitted (\<lambda>j. fst (rs ! j)) i"
    using nth axis_emitted [of 0 "\<lambda>j. fst (rs ! j)" i] by simp
  have oy: "snd (fst (run_intent_filter s rs ! i)) = emitted (\<lambda>j. snd (rs ! j)) i"
    using nth axis_emitted [of 0 "\<lambda>j. snd (rs ! j)" i] by simp
  have ex: "fst (fst (run_intent_filter s rs ! i)) =
      (if 2 \<le> i \<and> fst (rs ! i) \<noteq> 0 \<and>
          fst (rs ! (i - 1)) = fst (rs ! i) \<and> fst (rs ! (i - 2)) = fst (rs ! i)
       then fst (rs ! i) else 0)"
    unfolding ox by (rule emitted_three_frames)
  have ey: "snd (fst (run_intent_filter s rs ! i)) =
      (if 2 \<le> i \<and> snd (rs ! i) \<noteq> 0 \<and>
          snd (rs ! (i - 1)) = snd (rs ! i) \<and> snd (rs ! (i - 2)) = snd (rs ! i)
       then snd (rs ! i) else 0)"
    unfolding oy by (rule emitted_three_frames)
  from ex ey ox oy rx ry show ?thesis by blast
qed

text \<open>
  Witness for C2: \<open>(1, -1)\<close> is held for three frames; nothing is emitted on the first
  and on the second frame, and \<open>(1, -1)\<close> is emitted on the third. On the fourth frame
  the horizontal input drops to 0, which is emitted at once and resets the horizontal
  run counter, while the vertical run goes on to 4.
\<close>

theorem intent_filter_emits_after_three_witness:
  "mx_run FaceController_init = 0 \<and> mx_last FaceController_init = 0 \<and>
   my_run FaceController_init = 0 \<and> my_last FaceController_init = 0 \<and>
   (3::nat) < length [(1::int, - 1::int), (1, - 1), (1, - 1), (0, - 1)] \<and>
   fst (run_intent_filter FaceController_init [(1, - 1), (1, - 1), (1, - 1), (0, - 1)] ! 0) = (0, 0) \<and>
   fst (run_intent_filter FaceController_init [(1, - 1), (1, - 1), (1, - 1), (0, - 1)] ! 1) = (0, 0) \<and>
   fst (run_intent_filter FaceController_init [(1, - 1), (1, - 1), (1, - 1), (0, - 1)] ! 2) = (1, - 1) \<and>
   fst (run_intent_filter FaceController_init [(1, - 1), (1, - 1), (1, - 1), (0, - 1)] ! 3) = (0, - 1) \<and>
   mx_run (snd (run_intent_filter FaceController_init [(1, - 1), (1, - 1), (1, - 1), (0, - 1)] ! 1)) = 2 \<and>
   mx_run (snd (run_intent_filter FaceController_init [(1, - 1), (1, - 1), (1, - 1), (0, - 1)] ! 3)) = 0 \<and>
   my_run (snd (run_intent_filter FaceController_init [(1, - 1), (1, - 1), (1, - 1), (0, - 1)] ! 3)) = 4"
  using intent_filter_emits_after_three [of FaceController_init 0
      "[(1, - 1), (1, - 1), (1, - 1), (0, - 1)]"]
    intent_filter_emits_after_three [of FaceController_init 1
      "[(1, - 1), (1, - 1), (1, - 1), (0, - 1)]"]
    intent_filter_emits_after_three [of FaceController_init 2
      "[(1, - 1), (1, - 1), (1, - 1), (0, - 1)]"]
    intent_filter_emits_after_three [of FaceController_init 3
      "[(1, - 1), (1, - 1), (1, - 1), (0, - 1)]"]
  by (simp add: FaceController_init_def emitted_def eval_nat_numeral prod_eq_iff)

section \<open>Calibration\<close>

lemma calibrate_eq:
  "calibrate s =
     s\<lparr>baseline_earL := (if 0 < length (earL_hist s) then Some (np_mean (earL_hist s)) else baseline_earL s),
       baseline_earR := (if 0 < length (earR_hist s) then Some (np_mean (earR_hist s)) else baseline_earR s),
       baseline_yaw := (if 0 < length (yaw_hist s) then np_mean (yaw_hist s) else baseline_yaw s),
       baseline_pitch := (if 0 < length (pitch_hist s) then np_mean (pitch_hist s) else baseline_pitch s),
       baseline_roll := (if 0 < length (roll_hist s) then np_mean (roll_hist s) else baseline_roll s),
       mx_run := 0, my_run := 0, mx_last := 0, my_last := 0\<rparr>"
  by (cases "earL_hist s = []"; cases "earR_hist s = []"; cases "yaw_hist s = []";
      cases "pitch_hist s = []"; cases "roll_hist s = []")
    (simp_all add: calibrate_def Let_def)

lemma calibrate_fields:
  "baseline_earL (calibrate s) =
     (if 0 < length (earL_hist s) then Some (np_mean (earL_hist s)) else baseline_earL s)"
  "baseline_earR (calibrate s) =
     (if 0 < length (earR_hist s) then Some (np_mean (earR_hist s)) else baseline_earR s)"
  "baseline_yaw (calibrate s) =
     (if 0 < length (yaw_hist s) then np_mean (yaw_hist s) else baseline_yaw s)"
  "baseline_pitch (calibrate s) =
     (if 0 < length (pitch_hist s) then np_mean (pitch_hist s) else baseline_pitch s)"
  "baseline_roll (calibrate s) =
     (if 0 < length (roll_hist s) then np_mean (roll_hist s) else baseline_roll s)"
  "mx_run (calibrate s) = 0" "my_run (calibrate s) = 0"
  "mx_last (calibrate s) = 0" "my_last (calibrate s) = 0"
  "yaw_hist (calibrate s) = yaw_hist s" "pitch_hist (calibrate s) = pitch_hist s"
  "roll_hist (calibrate s) = roll_hist s"
  "earL_hist (calibrate s) = earL_hist s" "earR_hist (calibrate s) = earR_hist s"
  unfolding calibrate_eq by simp_all

lemma calibrate_idem: "calibrate (calibrate s) = calibrate s"
proof -
  have "calibrate (calibrate s) =
      (calibrate s)\<lparr>baseline_earL := baseline_earL (calibrate s),
        baseline_earR := baseline_earR (calibrate s),
        baseline_yaw := baseline_yaw (calibrate s),
        baseline_pitch := baseline_pitch (calibrate s),
        baseline_roll := baseline_roll (calibrate s),
        mx_run := 0, my_run := 0, mx_last := 0, my_last := 0\<rparr>"
    by (subst calibrate_eq [of "calibrate s"]) (simp add: calibrate_fields)
  also have "\<dots> = calibrate s"
    using calibrate_fields(6-9) [of s] by simp
  finally show ?thesis .
qed

text \<open>
  Claim C4: one call of \<open>calibrate\<close> sets each of the five baselines to the arithmetic
  mean of its window when the window holds a sample and leaves it unchanged when the
  window is empty (an eye baseline may stay unset), sets both run counters and both
  last values of the intent filter to 0, and leaves the five windows as they are;
  calling it twice in a row gives the same state as calling it once.
\<close>

theorem calibrate_captures_means:
  "baseline_earL (calibrate s) =
     (if 0 < length (earL_hist s) then Some (sum_list (earL_hist s) / real (length (earL_hist s))) else baseline_earL s) \<and>
   baseline_earR (calibrate s) =
     (if 0 < length (earR_hist s) then Some (sum_list (earR_hist s) / real (length (earR_hist s))) else baseline_earR s) \<and>
   baseline_yaw (calibrate s) =
     (if 0 < length (yaw_hist s) then sum_list (yaw_hist s) / real (length (yaw_hist s)) else baseline_yaw s) \<and>
   baseline_pitch (calibrate s) =
     (if 0 < length (pitch_hist s) then sum_list (pitch_hist s) / real (length (pitch_hist s)) else baseline_pitch s) \<and>
   baseline_roll (calibrate s) =
     (if 0 < length (roll_hist s) then sum_list (roll_hist s) / real (length (roll_hist s)) else baseline_roll s) \<and>
   mx_run (calibrate s) = 0 \<and> my_run (calibrate s) = 0 \<and>
   mx_last (calibrate s) = 0 \<and> my_last (calibrate s) = 0 \<and>
   yaw_hist (calibrate s) = yaw_hist s \<and> pitch_hist (calibrate s) = pitch_hist s \<and>
   roll_hist (calibrate s) = roll_hist s \<and>
   earL_hist (calibrate s) = earL_hist s \<and> earR_hist (calibrate s) = earR_hist s \<and>
   calibrate (calibrate s) = calibrate s"
  by (simp only: calibrate_fields calibrate_idem np_mean_def simp_thms)

section \<open>Frames without a face, frames without a pose\<close>

lemma apply_intent_filter_keeps:
  "yaw_hist (snd (apply_intent_filter s rx ry)) = yaw_hist s"
  "pitch_hist (snd (apply_intent_filter s rx ry)) = pitch_hist s"
  "roll_hist (snd (apply_intent_filter s rx ry)) = roll_hist s"
  "earL_hist (snd (apply_intent_filter s rx ry)) = earL_hist s"
  "earR_hist (snd (apply_intent_filter s rx ry)) = earR_hist s"
  "baseline_earL (snd (apply_intent_filter s rx ry)) = baseline_earL s"
  "baseline_earR (snd (apply_intent_filter s rx ry)) = baseline_earR s"
  "baseline_yaw (snd (apply_intent_filter s rx ry)) = baseline_yaw s"
  "baseline_pitch (snd (apply_intent_filter s rx ry)) = baseline_pitch s"
  "baseline_roll (snd (apply_intent_filter s rx ry)) = baseline_roll s"
  by (simp_all add: apply_intent_filter_def Let_def)

text \<open>
  Claim C5: on a frame without a face \<open>read_actions\<close> returns the neutral record and
  the controller unchanged: windows, baselines and filter state. The same holds for any
  number of consecutive frames without a face.
\<close>

theorem no_face_changes_nothing:
  "read_actions s No_face =
     (Some \<lparr>move_x = 0, move_y = 0, yaw = 0, pitch = 0, roll = 0,
            left_eye_closed = False, right_eye_closed = False, face_found = False\<rparr>, s) \<and>
   run_read_actions s (replicate n No_face) =
     replicate n
       (Some \<lparr>move_x = 0, move_y = 0, yaw = 0, pitch = 0, roll = 0,
              left_eye_closed = False, right_eye_closed = False, face_found = False\<rparr>, s)"
proof -
  have one: "read_actions s No_face = (Some neutral_actions, s)"
    by (simp add: read_actions_def)
  have "run_read_actions s (replicate n No_face) = replicate n (Some neutral_actions, s)"
    by (induction n) (simp_all add: one Let_def)
  with one show ?thesis by (simp add: neutral_actions_def)
qed

text \<open>
  Claim C6: on a frame with a face on which the pose solve gives no result,
  \<open>read_actions\<close> returns a record (it does not fail) with yaw, pitch, roll and both
  moves 0, leaves the three angle windows and the filter state unchanged, appends the
  two eye aspect ratios of the frame to the eye windows, and computes the two eye-closed
  flags from the means of the updated eye windows.
\<close>

theorem pose_failure_keeps_eye_closure:
  assumes "head_pose_pnp (epnp_ok obs) (iterative_ok obs) (rq_angles obs) = None"
  shows "case read_actions s (Face obs) of
           (None, s') \<Rightarrow> False
         | (Some a, s') \<Rightarrow>
             yaw a = 0 \<and> pitch a = 0 \<and> roll a = 0 \<and> move_x a = 0 \<and> move_y a = 0 \<and>
             face_found a \<and>
             yaw_hist s' = yaw_hist s \<and> pitch_hist s' = pitch_hist s \<and> roll_hist s' = roll_hist s \<and>
             mx_run s' = mx_run s \<and> my_run s' = my_run s \<and>
             mx_last s' = mx_last s \<and> my_last s' = my_last s \<and>
             earL_hist s' = deque_append 5 (earL_hist s) (eye_ear (pixel_points obs) LEFT_EYE) \<and>
             earR_hist s' = deque_append 5 (earR_hist s) (eye_ear (pixel_points obs) RIGHT_EYE) \<and>
             left_eye_closed a =
               (case baseline_earL s of None \<Rightarrow> False
                | Some b \<Rightarrow> np_mean (earL_hist s') < b * BLINK_DROP) \<and>
             right_eye_closed a =
               (case baseline_earR s of None \<Rightarrow> False
                | Some b \<Rightarrow> np_mean (earR_hist s') < b * BLINK_DROP)"
  using assms
  by (simp add: read_actions_def neutral_actions_def Let_def split: option.splits)

text \<open>
  Witness for C6: the first stage of the pose solve fails; with all landmarks at the
  origin both ratios are 0, below 0.72 times the baseline 1, so both eyes count as
  closed, while the angle windows stay empty.
\<close>

theorem pose_failure_keeps_eye_closure_witness:
  "head_pose_pnp False True (0, 0, 0) = None \<and>
   (case read_actions (FaceController_init\<lparr>baseline_earL := Some 1, baseline_earR := Some 1\<rparr>)
           (Face \<lparr>landmark = (\<lambda>i. (0, 0)), frame_w = 640, frame_h = 480,
                  epnp_ok = False, iterative_ok = True, rq_angles = (0, 0, 0)\<rparr>) of
      (None, s') \<Rightarrow> False
    | (Some a, s') \<Rightarrow>
        yaw a = 0 \<and> move_x a = 0 \<and> face_found a \<and> left_eye_closed a \<and> right_eye_closed a \<and>
        earL_hist s' = [0] \<and> earR_hist s' = [0] \<and> yaw_hist s' = [])"
  using pose_failure_keeps_eye_closure
    [of "\<lparr>landmark = (\<lambda>i. (0, 0)), frame_w = 640, frame_h = 480,
          epnp_ok = False, iterative_ok = True, rq_angles = (0, 0, 0)\<rparr>"
        "FaceController_init\<lparr>baseline_earL := Some 1, baseline_earR := Some 1\<rparr>"]
  by (simp add: read_actions_def head_pose_pnp_def eye_ear_def dist_pts_def pixel_points_def
      LEFT_EYE_def RIGHT_EYE_def deque_append_def np_mean_def BLINK_DROP_def neutral_actions_def
      FaceController_init_def Let_def)

text \<open>
  Claim C9: on every frame with a face the returned left-eye flag is True exactly when
  the left baseline is set and the mean of the left eye window, after this frame's ratio
  has been appended, is strictly below 0.72 times that baseline; likewise on the right.
  With the baseline unset the flag is False.
\<close>

theorem eye_closed_iff_below_baseline:
  "case read_actions s (Face obs) of
     (None, s') \<Rightarrow> False
   | (Some a, s') \<Rightarrow>
       face_found a \<and>
       earL_hist s' = deque_append 5 (earL_hist s) (eye_ear (pixel_points obs) LEFT_EYE) \<and>
       earR_hist s' = deque_append 5 (earR_hist s) (eye_ear (pixel_points obs) RIGHT_EYE) \<and>
       left_eye_closed a =
         (case baseline_earL s of None \<Rightarrow> False
          | Some b \<Rightarrow> np_mean (earL_hist s') < 72 / 100 * b) \<and>
       right_eye_closed a =
         (case baseline_earR s of None \<Rightarrow> False
          | Some b \<Rightarrow> np_mean (earR_hist s') < 72 / 100 * b)"
  by (simp add: read_actions_def neutral_actions_def BLINK_DROP_def Let_def split_def
      apply_intent_filter_keeps mult.commute split: option.splits)

section \<open>Smoothing windows\<close>

lemma length_last_n: "length (last_n n xs) = min (length xs) n"
  by (simp add: last_n_def)

lemma deque_append_last_n:
  assumes "0 < n"
  shows "deque_append n (last_n n xs) x = last_n n (xs @ [x])"
proof (cases "n \<le> length xs")
  case True
  define k where "k = length xs - n"
  have k: "k < length xs" and sk: "Suc (length xs) - n = Suc k"
    using True assms by (simp_all add: k_def)
  have ne: "drop k xs \<noteq> []" using k by simp
  have "tl (drop k xs @ [x]) = tl (drop k xs) @ [x]"
    using ne by (cases "drop k xs") simp_all
  also have "\<dots> = drop (Suc k) xs @ [x]"
    by (simp add: drop_Suc tl_drop)
  also have "\<dots> = drop (Suc k) (xs @ [x])"
    using k by simp
  finally have "tl (drop k xs @ [x]) = drop (Suc k) (xs @ [x])" .
  with True assms sk show ?thesis
    by (simp add: deque_append_def last_n_def Let_def k_def)
next
  case False
  then show ?thesis
    by (simp add: deque_append_def last_n_def Let_def)
qed

lemma read_actions_windows:
  "pitch_hist (snd (read_actions s cf)) =
     (case frame_pose cf of None \<Rightarrow> pitch_hist s | Some p \<Rightarrow> deque_append 9 (pitch_hist s) (fst p))"
  "yaw_hist (snd (read_actions s cf)) =
     (case frame_pose cf of None \<Rightarrow> yaw_hist s | Some p \<Rightarrow> deque_append 9 (yaw_hist s) (fst (snd p)))"
  "roll_hist (snd (read_actions s cf)) =
     (case frame_pose cf of None \<Rightarrow> roll_hist s | Some p \<Rightarrow> deque_append 9 (roll_hist s) (snd (snd p)))"
  "earL_hist (snd (read_actions s cf)) =
     (case frame_ears cf of None \<Rightarrow> earL_hist s | Some e \<Rightarrow> deque_append 5 (earL_hist s) (fst e))"
  "earR_hist (snd (read_actions s cf)) =
     (case frame_ears cf of None \<Rightarrow> earR_hist s | Some e \<Rightarrow> deque_append 5 (earR_hist s) (snd e))"
  by (cases cf; simp add: read_actions_def frame_pose_def frame_ears_def Let_def split_def
        apply_intent_filter_keeps split: option.splits)+

lemma pushed_snoc:
  "pushed_pitch (cfs @ [cf]) = pushed_pitch cfs @ (case frame_pose cf of None \<Rightarrow> [] | Some p \<Rightarrow> [fst p])"
  "pushed_yaw (cfs @ [cf]) = pushed_yaw cfs @ (case frame_pose cf of None \<Rightarrow> [] | Some p \<Rightarrow> [fst (snd p)])"
  "pushed_roll (cfs @ [cf]) = pushed_roll cfs @ (case frame_pose cf of None \<Rightarrow> [] | Some p \<Rightarrow> [snd (snd p)])"
  "pushed_earL (cfs @ [cf]) = pushed_earL cfs @ (case frame_ears cf of None \<Rightarrow> [] | Some e \<Rightarrow> [fst e])"
  "pushed_earR (cfs @ [cf]) = pushed_earR cfs @ (case frame_ears cf of None \<Rightarrow> [] | Some e \<Rightarrow> [snd e])"
  by (simp_all add: pushed_pitch_def pushed_yaw_def pushed_roll_def pushed_earL_def pushed_earR_def
      List.map_filter_def split: option.splits)

lemma after_frames_snoc:
  "after_frames s (cfs @ [cf]) = snd (read_actions (after_frames s cfs) cf)"
  by (simp add: after_frames_def)

lemma after_frames_windows:
  "pitch_hist (after_frames FaceController_init cfs) = last_n 9 (pushed_pitch cfs) \<and>
   yaw_hist (after_frames FaceController_init cfs) = last_n 9 (pushed_yaw cfs) \<and>
   roll_hist (after_frames FaceController_init cfs) = last_n 9 (pushed_roll cfs) \<and>
   earL_hist (after_frames FaceController_init cfs) = last_n 5 (pushed_earL cfs) \<and>
   earR_hist (after_frames FaceController_init cfs) = last_n 5 (pushed_earR cfs)"
proof (induction cfs rule: rev_induct)
  case Nil
  show ?case
    by (simp add: after_frames_def FaceController_init_def last_n_def pushed_pitch_def
        pushed_yaw_def pushed_roll_def pushed_earL_def pushed_earR_def List.map_filter_def)
next
  case (snoc cf cfs)
  show ?case
    unfolding after_frames_snoc read_actions_windows pushed_snoc
    using snoc.IH
    by (simp add: deque_append_last_n split: option.splits)
qed

text \<open>
  Claim C7: after any sequence of frames, starting from the controller \<open>__init__\<close>
  leaves, each window holds the last \<open>min n c\<close> of the \<open>n\<close> samples pushed into it, in
  push order, where the capacity \<open>c\<close> is 9 for pitch, yaw and roll and 5 for the two
  eye ratios; and the smoothed value \<open>np.mean\<close> computes from the window is the sum of
  those samples divided by their number.
\<close>

theorem smoothing_window_contents:
  "pitch_hist (after_frames FaceController_init cfs) = last_n 9 (pushed_pitch cfs) \<and>
   yaw_hist (after_frames FaceController_init cfs) = last_n 9 (pushed_yaw cfs) \<and>
   roll_hist (after_frames FaceController_init cfs) = last_n 9 (pushed_roll cfs) \<and>
   earL_hist (after_frames FaceController_init cfs) = last_n 5 (pushed_earL cfs) \<and>
   earR_hist (after_frames FaceController_init cfs) = last_n 5 (pushed_earR cfs) \<and>
   length (last_n 9 (pushed_yaw cfs)) = min (length (pushed_yaw cfs)) 9 \<and>
   length (last_n 5 (pushed_earL cfs)) = min (length (pushed_earL cfs)) 5 \<and>
   np_mean (pitch_hist (after_frames FaceController_init cfs)) =
     sum_list (last_n 9 (pushed_pitch cfs)) / real (min (length (pushed_pitch cfs)) 9) \<and>
   np_mean (yaw_hist (after_frames FaceController_init cfs)) =
     sum_list (last_n 9 (pushed_yaw cfs)) / real (min (length (pushed_yaw cfs)) 9) \<and>
   np_mean (roll_hist (after_frames FaceController_init cfs)) =
     sum_list (last_n 9 (pushed_roll cfs)) / real (min (length (pushed_roll cfs)) 9) \<and>
   np_mean (earL_hist (after_frames FaceController_init cfs)) =
     sum_list (last_n 5 (pushed_earL cfs)) / real (min (length (pushed_earL cfs)) 5) \<and>
   np_mean (earR_hist (after_frames FaceController_init cfs)) =
     sum_list (last_n 5 (pushed_earR cfs)) / real (min (length (pushed_earR cfs)) 5)"
  using after_frames_windows [of cfs]
  by (simp add: np_mean_def length_last_n)

end
